theory Spec2Isabelle
  imports Complex_Main
begin

section \<open>JavaScript values\<close>

text \<open>
  The programs of the repository exchange JSON. A parsed JSON document is a value of
  type \<open>json\<close>, an object listing each of its property names once; the JavaScript
  value \<open>undefined\<close> (a property that is not there) is \<open>None\<close> of \<open>json option\<close>.
  Strings are UTF-8 byte lists, so the Chinese literals of the sources are written
  byte by byte.
\<close>

datatype json =
    JNull
  | JBool bool
  | JNum rat
  | JStr string
  | JArr "json list"
  | JObj "(string \<times> json) list"

text \<open>JavaScript's ToBoolean: what \<open>!x\<close>, \<open>x || y\<close> and \<open>x && y\<close> test.\<close>

fun truthy :: "json option \<Rightarrow> bool" where
  "truthy None = False"
| "truthy (Some JNull) = False"
| "truthy (Some (JBool b)) = b"
| "truthy (Some (JNum n)) = (n \<noteq> 0)"
| "truthy (Some (JStr s)) = (s \<noteq> [])"
| "truthy (Some (JArr xs)) = True"
| "truthy (Some (JObj kvs)) = True"

text \<open>\<open>x || d\<close> with a JSON default.\<close>

definition or_else :: "json option \<Rightarrow> json \<Rightarrow> json" where
  "or_else x d = (case x of None \<Rightarrow> d | Some v \<Rightarrow> if truthy (Some v) then v else d)"

text \<open>
  \<open>obj[key]\<close> with a computed key converts the key with ToString. Arrays join their
  elements with commas, \<open>null\<close> elements giving the empty string; Number::toString is
  the parameter \<open>ns\<close>. An object is converted by the \<open>toString\<close> it finds: the
  inherited one answers \<open>[object Object]\<close>, while an own property \<open>toString\<close> of a
  parsed object is no function, and the conversion ends in a TypeError.
\<close>

datatype js_error = TypeError | SyntaxError | FetchFailed

fun join_comma :: "string list \<Rightarrow> string" where
  "join_comma [] = []"
| "join_comma [x] = x"
| "join_comma (x # y # ys) = x @ '','' @ join_comma (y # ys)"

fun to_string :: "(rat \<Rightarrow> string) \<Rightarrow> json \<Rightarrow> js_error + string"
  and element_strings :: "(rat \<Rightarrow> string) \<Rightarrow> json list \<Rightarrow> js_error + string list" where
  "to_string ns JNull = Inr ''null''"
| "to_string ns (JBool b) = Inr (if b then ''true'' else ''false'')"
| "to_string ns (JNum n) = Inr (ns n)"
| "to_string ns (JStr s) = Inr s"
| "to_string ns (JArr xs) =
     (case element_strings ns xs of Inl e \<Rightarrow> Inl e | Inr ss \<Rightarrow> Inr (join_comma ss))"
| "to_string ns (JObj kvs) =
     (if ''toString'' \<in> fst ` set kvs then Inl TypeError else Inr ''[object Object]'')"
| "element_strings ns [] = Inr []"
| "element_strings ns (x # xs) =
     (case (if x = JNull then Inr [] else to_string ns x) of
        Inl e \<Rightarrow> Inl e
      | Inr s \<Rightarrow>
          (case element_strings ns xs of Inl e \<Rightarrow> Inl e | Inr ss \<Rightarrow> Inr (s # ss)))"

text \<open>
  A plain object literal inherits from \<open>Object.prototype\<close>: reading a property that
  is not its own finds the members of the prototype before it gives \<open>undefined\<close>.
\<close>

definition Object_prototype :: "string list" where
  "Object_prototype =
     [''constructor'', ''__defineGetter__'', ''__defineSetter__'', ''hasOwnProperty'',
      ''__lookupGetter__'', ''__lookupSetter__'', ''isPrototypeOf'',
      ''propertyIsEnumerable'', ''toString'', ''valueOf'', ''__proto__'',
      ''toLocaleString'']"

datatype 'a member = Own 'a | Inherited string | Absent

definition get_member :: "(string \<rightharpoonup> 'a) \<Rightarrow> string \<Rightarrow> 'a member" where
  "get_member obj k =
     (case obj k of
        Some v \<Rightarrow> Own v
      | None \<Rightarrow> if k \<in> set Object_prototype then Inherited k else Absent)"

text \<open>
  \<open>x.name\<close> for a name that no prototype defines: a TypeError on \<open>null\<close>, the own
  property of an object, \<open>undefined\<close> on everything else.
\<close>

fun field :: "json \<Rightarrow> string \<Rightarrow> js_error + json option" where
  "field JNull name = Inl TypeError"
| "field (JObj kvs) name = Inr (map_of kvs name)"
| "field v name = Inr None"

text \<open>The same read on a value that may be \<open>undefined\<close>.\<close>

fun field_of :: "json option \<Rightarrow> string \<Rightarrow> js_error + json option" where
  "field_of None name = Inl TypeError"
| "field_of (Some v) name = field v name"


section \<open>The serverless endpoint and the Express server\<close>

subsection \<open>getAccessToken\<close>

text \<open>
  The module-level variables \<open>accessToken\<close> and \<open>tokenExpireTime\<close>, and what the
  Feishu token endpoint answers: the request throws (anything thrown inside the
  \<open>try\<close> is caught alike), or \<open>response.data\<close> arrives with its code, token,
  lifetime in seconds and message.
\<close>

record token_cache =
  accessToken :: "string option"
  tokenExpireTime :: int

definition initial_cache :: token_cache where
  "initial_cache = \<lparr>accessToken = None, tokenExpireTime = 0\<rparr>"

record token_data =
  code :: int
  tenant_access_token :: string
  expire :: int
  msg :: string

datatype token_reply = TokenRequestThrows string | TokenReply token_data

text \<open>
  One call: the value returned (\<open>None\<close> is \<open>null\<close>), the variables afterwards, the
  number of requests sent to the provider and the lines written by \<open>console.error\<close>.
\<close>

record token_call =
  returned :: "string option"
  cache :: token_cache
  requests :: nat
  logged :: "string list"

definition token_truthy :: "string option \<Rightarrow> bool" where
  "token_truthy t = (case t of None \<Rightarrow> False | Some s \<Rightarrow> s \<noteq> [])"

text \<open>
  The serverless variant. \<open>now\<close> is \<open>Date.now()\<close> at the expiry check, \<open>now'\<close> is
  \<open>Date.now()\<close> when the reply is stored.
\<close>

definition getAccessToken_serverless ::
  "token_cache \<Rightarrow> int \<Rightarrow> token_reply \<Rightarrow> int \<Rightarrow> token_call" where
  "getAccessToken_serverless c now reply now' =
     (if token_truthy (accessToken c) \<and> now < tokenExpireTime c
      then \<lparr>returned = accessToken c, cache = c, requests = 0, logged = []\<rparr>
      else (case reply of
              TokenRequestThrows m \<Rightarrow>
                \<lparr>returned = None, cache = c, requests = 1, logged = [m]\<rparr>
            | TokenReply d \<Rightarrow>
                if code d = 0
                then (let c' = \<lparr>accessToken = Some (tenant_access_token d),
                                 tokenExpireTime = now' + (expire d - 60) * 1000\<rparr>
                      in \<lparr>returned = accessToken c', cache = c', requests = 1, logged = []\<rparr>)
                else \<lparr>returned = None, cache = c, requests = 1, logged = []\<rparr>))"

text \<open>
  The Express variant throws on a non-zero code inside its own \<open>try\<close>, so the
  \<open>catch\<close> logs the message and returns \<open>null\<close>.
\<close>

definition getAccessToken :: "token_cache \<Rightarrow> int \<Rightarrow> token_reply \<Rightarrow> int \<Rightarrow> token_call" where
  "getAccessToken c now reply now' =
     (if token_truthy (accessToken c) \<and> now < tokenExpireTime c
      then \<lparr>returned = accessToken c, cache = c, requests = 0, logged = []\<rparr>
      else (case reply of
              TokenRequestThrows m \<Rightarrow>
                \<lparr>returned = None, cache = c, requests = 1, logged = [m]\<rparr>
            | TokenReply d \<Rightarrow>
                if code d = 0
                then (let c' = \<lparr>accessToken = Some (tenant_access_token d),
                                 tokenExpireTime = now' + (expire d - 60) * 1000\<rparr>
                      in \<lparr>returned = accessToken c', cache = c', requests = 1, logged = []\<rparr>)
                else \<lparr>returned = None, cache = c, requests = 1,
                      logged = [''Failed to get token: '' @ msg d]\<rparr>))"

subsection \<open>mapStatus\<close>

definition zh_offline :: string where
  "zh_offline = [CHR 0xE7, CHR 0xA6, CHR 0xBB, CHR 0xE7, CHR 0xBA, CHR 0xBF]"

definition zh_online :: string where
  "zh_online = [CHR 0xE5, CHR 0x9C, CHR 0xA8, CHR 0xE7, CHR 0xBA, CHR 0xBF]"

definition zh_running :: string where
  "zh_running = [CHR 0xE6, CHR 0x89, CHR 0xA7, CHR 0xE8, CHR 0xA1, CHR 0x8C,
                 CHR 0xE4, CHR 0xB8, CHR 0xAD]"

definition statusMap :: "(string \<times> json) list" where
  "statusMap =
     [(''Online'', JStr zh_online),
      (''online'', JStr zh_online),
      (''Offline'', JStr zh_offline),
      (''offline'', JStr zh_offline),
      (zh_running, JStr zh_running),
      (''running'', JStr zh_running)]"

text \<open>
  What \<open>mapStatus\<close> returns: a JSON value, or a member of \<open>Object.prototype\<close>. It
  throws when the status cannot be converted to a property name.
\<close>

datatype js_result = Value json | Builtin string

definition mapStatus :: "(rat \<Rightarrow> string) \<Rightarrow> json option \<Rightarrow> js_error + js_result" where
  "mapStatus ns status =
     (case status of
        None \<Rightarrow> Inr (Value (JStr zh_offline))
      | Some s \<Rightarrow>
          if \<not> truthy (Some s) then Inr (Value (JStr zh_offline))
          else (case to_string ns s of
                  Inl e \<Rightarrow> Inl e
                | Inr k \<Rightarrow>
                    (case get_member (map_of statusMap) k of
                       Own v \<Rightarrow> Inr (if truthy (Some v) then Value v else Value s)
                     | Inherited m \<Rightarrow> Inr (Builtin m)
                     | Absent \<Rightarrow> Inr (Value s))))"

subsection \<open>getMockData, getRecords and the route /api/robots\<close>

definition zh_robot_id :: string where
  "zh_robot_id = [CHR 0xE6, CHR 0x9C, CHR 0xBA, CHR 0xE5, CHR 0x99, CHR 0xA8,
                  CHR 0xE4, CHR 0xBA, CHR 0xBA, CHR ''I'', CHR ''D'']"

definition zh_name :: string where
  "zh_name = [CHR 0xE5, CHR 0x90, CHR 0x8D, CHR 0xE7, CHR 0xA7, CHR 0xB0]"

definition zh_status :: string where
  "zh_status = [CHR 0xE7, CHR 0x8A, CHR 0xB6, CHR 0xE6, CHR 0x80, CHR 0x81]"

definition zh_current_task :: string where
  "zh_current_task = [CHR 0xE5, CHR 0xBD, CHR 0x93, CHR 0xE5, CHR 0x89, CHR 0x8D,
                      CHR 0xE4, CHR 0xBB, CHR 0xBB, CHR 0xE5, CHR 0x8A, CHR 0xA1]"

definition zh_task_progress :: string where
  "zh_task_progress = [CHR 0xE4, CHR 0xBB, CHR 0xBB, CHR 0xE5, CHR 0x8A, CHR 0xA1,
                       CHR 0xE8, CHR 0xBF, CHR 0x9B, CHR 0xE5, CHR 0xBA, CHR 0xA6]"

definition zh_cpu_load :: string where
  "zh_cpu_load = [CHR ''C'', CHR ''P'', CHR ''U'', CHR 0xE8, CHR 0xB4, CHR 0x9F,
                  CHR 0xE8, CHR 0xBD, CHR 0xBD]"

definition zh_memory_usage :: string where
  "zh_memory_usage = [CHR 0xE5, CHR 0x86, CHR 0x85, CHR 0xE5, CHR 0xAD, CHR 0x98,
                      CHR 0xE4, CHR 0xBD, CHR 0xBF, CHR 0xE7, CHR 0x94, CHR 0xA8,
                      CHR 0xE7, CHR 0x8E, CHR 0x87]"

definition zh_issue_status :: string where
  "zh_issue_status = [CHR 0xE9, CHR 0x97, CHR 0xAE, CHR 0xE9, CHR 0xA2, CHR 0x98,
                      CHR 0xE7, CHR 0x8A, CHR 0xB6, CHR 0xE6, CHR 0x80, CHR 0x81]"

definition zh_last_active :: string where
  "zh_last_active = [CHR 0xE6, CHR 0x9C, CHR 0x80, CHR 0xE5, CHR 0x90, CHR 0x8E,
                     CHR 0xE6, CHR 0xB4, CHR 0xBB, CHR 0xE8, CHR 0xB7, CHR 0x83]"

definition zh_dazhou :: string where
  "zh_dazhou = [CHR 0xE5, CHR 0xA4, CHR 0xA7, CHR 0xE5, CHR 0x91, CHR 0xA8]"

definition zh_momo :: string where
  "zh_momo = [CHR 0xE9, CHR 0xBB, CHR 0x98, CHR 0xE9, CHR 0xBB, CHR 0x98]"

definition zh_monitoring_task :: string where
  "zh_monitoring_task = [CHR 0xE7, CHR 0x9B, CHR 0x91, CHR 0xE6, CHR 0x8E, CHR 0xA7,
                         CHR 0xE4, CHR 0xBB, CHR 0xBB, CHR 0xE5, CHR 0x8A, CHR 0xA1]"

definition zh_data_sync :: string where
  "zh_data_sync = [CHR 0xE6, CHR 0x95, CHR 0xB0, CHR 0xE6, CHR 0x8D, CHR 0xAE,
                   CHR 0xE5, CHR 0x90, CHR 0x8C, CHR 0xE6, CHR 0xAD, CHR 0xA5]"

definition zh_normal :: string where
  "zh_normal = [CHR 0xE6, CHR 0xAD, CHR 0xA3, CHR 0xE5, CHR 0xB8, CHR 0xB8]"

text \<open>
  \<open>fmt\<close> is \<open>Date.prototype.toISOString\<close> on an instant in milliseconds; \<open>t1\<close> is
  the clock read by \<open>new Date()\<close> and \<open>t2\<close> the one read by \<open>Date.now()\<close>.
\<close>

definition getMockData :: "(int \<Rightarrow> string) \<Rightarrow> int \<Rightarrow> int \<Rightarrow> json list" where
  "getMockData fmt t1 t2 =
     [JObj [(zh_robot_id, JStr ''robot-001''),
            (zh_name, JStr zh_dazhou),
            (zh_status, JStr zh_online),
            (zh_current_task, JStr zh_monitoring_task),
            (zh_task_progress, JNum 75),
            (zh_cpu_load, JNum 45),
            (zh_memory_usage, JNum 62),
            (zh_issue_status, JStr zh_normal),
            (zh_last_active, JStr (fmt t1))],
      JObj [(zh_robot_id, JStr ''robot-002''),
            (zh_name, JStr zh_momo),
            (zh_status, JStr zh_running),
            (zh_current_task, JStr zh_data_sync),
            (zh_task_progress, JNum 30),
            (zh_cpu_load, JNum 78),
            (zh_memory_usage, JNum 55),
            (zh_issue_status, JStr zh_normal),
            (zh_last_active, JStr (fmt (t2 - 300000)))]]"

text \<open>
  What the Bitable request does: it throws, or \<open>response.data\<close> arrives as JSON.
  Everything the Express server reads from outside during one request is a record.
\<close>

datatype bitable_reply = BitableRequestThrows string | BitableReply json

record upstream =
  clock_check :: int
  token_answer :: token_reply
  clock_store :: int
  bitable_answer :: bitable_reply
  toISOString :: "int \<Rightarrow> string"
  clock_mock1 :: int
  clock_mock2 :: int

text \<open>\<open>items.map(record => record.fields)\<close>: a TypeError on a \<open>null\<close> item.\<close>

fun record_fields :: "json list \<Rightarrow> js_error + json option list" where
  "record_fields [] = Inr []"
| "record_fields (r # rs) =
     (case field r ''fields'' of
        Inl e \<Rightarrow> Inl e
      | Inr f \<Rightarrow> (case record_fields rs of Inl e \<Rightarrow> Inl e | Inr fs \<Rightarrow> Inr (f # fs)))"

text \<open>\<open>response.data.data.items.map(...)\<close>, with every TypeError it can raise.\<close>

definition read_items :: "json \<Rightarrow> js_error + json option list" where
  "read_items d =
     (case field d ''data'' of
        Inl e \<Rightarrow> Inl e
      | Inr dd \<Rightarrow>
          (case field_of dd ''items'' of
             Inl e \<Rightarrow> Inl e
           | Inr (Some (JArr items)) \<Rightarrow> record_fields items
           | Inr other \<Rightarrow> Inl TypeError))"

definition mock_records :: "upstream \<Rightarrow> json option list" where
  "mock_records u = map Some (getMockData (toISOString u) (clock_mock1 u) (clock_mock2 u))"

text \<open>The body of the \<open>try\<close> in \<open>getRecords\<close>, once the token is there.\<close>

definition fetch_records :: "upstream \<Rightarrow> json option list" where
  "fetch_records u =
     (case bitable_answer u of
        BitableRequestThrows m \<Rightarrow> mock_records u
      | BitableReply d \<Rightarrow>
          (case field d ''code'' of
             Inl e \<Rightarrow> mock_records u
           | Inr c \<Rightarrow>
               if c = Some (JNum 0)
               then (case read_items d of Inl e \<Rightarrow> mock_records u | Inr fs \<Rightarrow> fs)
               else mock_records u))"

definition getRecords :: "token_cache \<Rightarrow> upstream \<Rightarrow> json option list \<times> token_cache" where
  "getRecords c u =
     (let t = getAccessToken c (clock_check u) (token_answer u) (clock_store u)
      in if \<not> token_truthy (returned t) then (mock_records u, cache t)
         else (fetch_records u, cache t))"

datatype response_body = Records "json option list" | ErrorBody string

record http_response =
  status_code :: nat
  body :: response_body

text \<open>
  The route handler. \<open>res.json\<close> answers 200; \<open>getRecords\<close> has no path that
  rejects, so the handler's \<open>catch\<close> with its 500 is never entered.
\<close>

definition api_robots :: "token_cache \<Rightarrow> upstream \<Rightarrow> http_response \<times> token_cache" where
  "api_robots c u =
     (let (robots, c') = getRecords c u
      in (\<lparr>status_code = 200, body = Records robots\<rparr>, c'))"

section \<open>The reporter\<close>

subsection \<open>CONFIG\<close>

text \<open>
  The environment variables the reporter reads (\<open>None\<close>: not set) and the values of
  the \<open>os\<close> module. \<open>REPORT_INTERVAL\<close> holds what \<open>parseInt\<close> makes of the variable,
  \<open>None\<close> standing for NaN.
\<close>

record process_env =
  FLEET_HUB_URL :: "string option"
  env_ROBOT_ID :: "string option"
  REPORT_INTERVAL :: "int option"

record os_module =
  hostname :: string
  platform :: string
  uptime :: json
  loadavg :: json
  totalmem :: json
  freemem :: json

record config =
  HUB_URL :: string
  ROBOT_ID :: string
  INTERVAL :: int

text \<open>\<open>x || d\<close> on strings: the empty string is falsy.\<close>

definition string_or :: "string option \<Rightarrow> string \<Rightarrow> string" where
  "string_or x d = (case x of None \<Rightarrow> d | Some s \<Rightarrow> if s \<noteq> [] then s else d)"

definition CONFIG :: "process_env \<Rightarrow> os_module \<Rightarrow> config" where
  "CONFIG env os =
     \<lparr>HUB_URL = string_or (FLEET_HUB_URL env) ''http://localhost:3000'',
      ROBOT_ID = string_or (env_ROBOT_ID env) (hostname os),
      INTERVAL = (case REPORT_INTERVAL env of
                    None \<Rightarrow> 30000
                  | Some n \<Rightarrow> if n \<noteq> 0 then n else 30000)\<rparr>"

subsection \<open>Collecting\<close>

text \<open>
  Running the CLI and parsing its output: \<open>execSync\<close> or \<open>JSON.parse\<close> throws an
  error with a message, or a JSON value results.
\<close>

datatype cli_outcome = CliThrows string | CliJson json

definition getOpenClawHealth :: "cli_outcome \<Rightarrow> json" where
  "getOpenClawHealth r =
     (case r of CliThrows m \<Rightarrow> JObj [(''error'', JStr m)] | CliJson v \<Rightarrow> v)"

definition getOpenClawStatus :: "cli_outcome \<Rightarrow> json" where
  "getOpenClawStatus r =
     (case r of CliThrows m \<Rightarrow> JObj [(''error'', JStr m)] | CliJson v \<Rightarrow> v)"

subsection \<open>postData\<close>

text \<open>
  What happens to the request, in order. Three events reach the listeners \<open>postData\<close>
  installs: an error of the request, its timeout, and the end of a response with its
  status code and body. A promise is settled by the first call of \<open>resolve\<close> or
  \<open>reject\<close>; later calls do nothing. The fourth event is the connection being lost
  after the head of the response has arrived and before its body ends: the response
  is aborted and closed without an end, none of the listeners of \<open>postData\<close> is
  called, and nothing follows. An exception of \<open>new URL(url)\<close> inside the executor
  rejects the promise as well.
\<close>

datatype req_event = ReqError string | ReqTimeout | ResEnd nat string | ResAborted

datatype post_error = InvalidUrl | HttpStatus nat string | RequestError string | RequestTimeout

record network =
  url_parses :: "string \<Rightarrow> bool"
  events :: "req_event list"

text \<open>\<open>None\<close>: no listener is ever called and the promise stays pending.\<close>

fun settle :: "req_event list \<Rightarrow> (post_error + nat \<times> string) option" where
  "settle [] = None"
| "settle (ResEnd statusCode b # evs) =
     Some (if 200 \<le> statusCode \<and> statusCode < 300
           then Inr (statusCode, b) else Inl (HttpStatus statusCode b))"
| "settle (ReqError m # evs) = Some (Inl (RequestError m))"
| "settle (ReqTimeout # evs) = Some (Inl RequestTimeout)"
| "settle (ResAborted # evs) = None"

definition postData :: "network \<Rightarrow> string \<Rightarrow> json \<Rightarrow> (post_error + nat \<times> string) option" where
  "postData net url payload =
     (if \<not> url_parses net url then Some (Inl InvalidUrl) else settle (events net))"

subsection \<open>report\<close>

datatype log_line =
    Collecting string
  | ReportSucceeded string
  | ReportFailed string post_error

datatype settlement = Fulfilled | RejectedWith js_error | Pending

text \<open>
  One invocation of \<open>report\<close>: the console lines, the calls of \<open>postData\<close> with
  their URL and payload, and how the promise of the invocation ends.
\<close>

record report_run =
  console :: "log_line list"
  post_calls :: "(string \<times> json) list"
  outcome :: settlement

definition build_payload :: "config \<Rightarrow> os_module \<Rightarrow> string \<Rightarrow> json \<Rightarrow> json \<Rightarrow> json option \<Rightarrow> json" where
  "build_payload cfg os timestamp h st st_error =
     JObj [(''robot_id'', JStr (ROBOT_ID cfg)),
           (''hostname'', JStr (hostname os)),
           (''platform'', JStr (platform os)),
           (''report_at'', JStr timestamp),
           (''health'', h),
           (''status'', if truthy st_error then JNull else st),
           (''metrics'', JObj [(''uptime'', uptime os),
                              (''loadavg'', loadavg os),
                              (''totalmem'', totalmem os),
                              (''freemem'', freemem os)])]"

text \<open>
  \<open>timestamp\<close> is \<open>new Date().toISOString()\<close> read on entry. Reading \<open>status.error\<close>
  of a status that parsed to \<open>null\<close> is a TypeError outside the \<open>try\<close>.
\<close>

definition report ::
  "config \<Rightarrow> os_module \<Rightarrow> string \<Rightarrow> cli_outcome \<Rightarrow> cli_outcome \<Rightarrow> network \<Rightarrow> report_run" where
  "report cfg os timestamp health_cli status_cli net =
     (let h = getOpenClawHealth health_cli;
          st = getOpenClawStatus status_cli
      in case field st ''error'' of
           Inl e \<Rightarrow>
             \<lparr>console = [Collecting timestamp], post_calls = [], outcome = RejectedWith e\<rparr>
         | Inr st_error \<Rightarrow>
             (let payload = build_payload cfg os timestamp h st st_error;
                  url = HUB_URL cfg @ ''/api/ingest/health''
              in case postData net url payload of
                   None \<Rightarrow>
                     \<lparr>console = [Collecting timestamp],
                      post_calls = [(url, payload)], outcome = Pending\<rparr>
                 | Some (Inr r) \<Rightarrow>
                     \<lparr>console = [Collecting timestamp, ReportSucceeded timestamp],
                      post_calls = [(url, payload)], outcome = Fulfilled\<rparr>
                 | Some (Inl e) \<Rightarrow>
                     \<lparr>console = [Collecting timestamp, ReportFailed timestamp e],
                      post_calls = [(url, payload)], outcome = Fulfilled\<rparr>))"

subsection \<open>Start-up and the interval timer\<close>

text \<open>
  The last two statements of the script are \<open>report()\<close> and
  \<open>setInterval(report, CONFIG.INTERVAL)\<close>. An invocation of \<open>report\<close> runs up to its
  \<open>await\<close> and is then in flight until its POST settles; the collecting before the
  \<open>await\<close> is synchronous, so no timer fires during it. The process is followed
  through two kinds of event: the timer fires, or the POST of an invocation in flight
  settles. \<open>setInterval\<close> calls its callback at every firing.
\<close>

text \<open>
  The delay \<open>setInterval\<close> runs with: a delay below 1 or above \<open>TIMEOUT_MAX\<close>, the
  largest signed 32-bit integer, is replaced by 1.
\<close>

definition TIMEOUT_MAX :: int where
  "TIMEOUT_MAX = 2147483647"

definition timer_delay :: "int \<Rightarrow> int" where
  "timer_delay after = (if 1 \<le> after \<and> after \<le> TIMEOUT_MAX then after else 1)"

text \<open>
  \<open>period\<close> is the delay of the timer in milliseconds and \<open>next_firing\<close> the time,
  in milliseconds from start-up, at which the next firing is due, each firing taken
  to run when it is due.
\<close>

record reporter_process =
  started :: nat
  in_flight :: nat
  period :: int
  next_firing :: int

datatype loop_event = Tick | Settled

definition startup :: "config \<Rightarrow> reporter_process" where
  "startup cfg =
     \<lparr>started = 1, in_flight = 1, period = timer_delay (INTERVAL cfg),
      next_firing = timer_delay (INTERVAL cfg)\<rparr>"

fun on_event :: "reporter_process \<Rightarrow> loop_event \<Rightarrow> reporter_process" where
  "on_event p Tick =
     p\<lparr>started := started p + 1, in_flight := in_flight p + 1,
       next_firing := next_firing p + period p\<rparr>"
| "on_event p Settled = p\<lparr>in_flight := in_flight p - 1\<rparr>"

definition run_events :: "reporter_process \<Rightarrow> loop_event list \<Rightarrow> reporter_process" where
  "run_events p evs = foldl on_event p evs"

section \<open>The dashboard\<close>

text \<open>
  What \<open>fetch\<close> gives a page: the promise rejects, or a response arrives with its
  \<open>ok\<close> flag and the body as \<open>res.json()\<close> parses it (\<open>None\<close>: the body is not JSON).
\<close>

datatype 'a fetched = Rejected | Response bool "'a option"

subsection \<open>The robot detail page\<close>

definition getRobot :: "json fetched \<Rightarrow> js_error + json" where
  "getRobot r =
     (case r of
        Rejected \<Rightarrow> Inl FetchFailed
      | Response ok parsed \<Rightarrow>
          if \<not> ok then Inr JNull
          else (case parsed of None \<Rightarrow> Inl SyntaxError | Some d \<Rightarrow> Inr d))"

text \<open>
  The values the detail view prints: \<open>robot\<close>, \<open>report\<close> (the field
  \<open>latest_report\<close>), \<open>health\<close> and \<open>metrics\<close> as the component binds them, the
  entries of the two card lists, and whether the placeholder card of an empty list is
  shown.
\<close>

record detail =
  robot :: json
  latest_report :: json
  health :: json
  metrics :: json
  error_cards :: "json list"
  no_errors_card :: bool
  job_cards :: "json list"
  no_jobs_card :: bool





subsection \<open>The workboard page\<close>

text \<open>\<open>GET /api/jobs\<close> answers with a JSON array: the parsed body is its entries.\<close>

definition getJobs :: "json list fetched \<Rightarrow> js_error + json list" where
  "getJobs r =
     (case r of
        Rejected \<Rightarrow> Inl FetchFailed
      | Response ok parsed \<Rightarrow>
          if \<not> ok then Inr []
          else (case parsed of None \<Rightarrow> Inl SyntaxError | Some js \<Rightarrow> Inr js))"

definition columns :: "(string \<times> string) list" where
  "columns =
     [(''BACKLOG'', ''Backlog''),
      (''ASSIGNED'', ''Assigned''),
      (''RUNNING'', ''Running''),
      (''BLOCKED'', ''Blocked''),
      (''DONE'', ''Done''),
      (''FAILED'', ''Failed'')]"

text \<open>The object \<open>grouped\<close>: its own properties, each an array of jobs.\<close>

type_synonym groups = "string \<rightharpoonup> json list"

text \<open>\<open>for (const col of columns) grouped[col.key] = []\<close>\<close>

definition empty_groups :: groups where
  "empty_groups = fold (\<lambda>col g. g(fst col \<mapsto> [])) columns Map.empty"

definition member_truthy :: "'a member \<Rightarrow> bool" where
  "member_truthy m = (case m of Own v \<Rightarrow> True | Inherited k \<Rightarrow> True | Absent \<Rightarrow> False)"

text \<open>The property name under which the loop files a job.\<close>

definition group_key :: "(rat \<Rightarrow> string) \<Rightarrow> json option \<Rightarrow> js_error + string" where
  "group_key ns st = to_string ns (or_else st (JStr ''BACKLOG''))"

text \<open>
  The name a job is filed under, from its \<open>status\<close>; \<open>None\<close> when the job is
  \<open>null\<close> and reading \<open>j.status\<close> throws, or when the status cannot be converted
  to a property name.
\<close>

definition job_key :: "(rat \<Rightarrow> string) \<Rightarrow> json \<Rightarrow> string option" where
  "job_key ns j =
     (case field j ''status'' of
        Inl e \<Rightarrow> None
      | Inr st \<Rightarrow> (case group_key ns st of Inl e \<Rightarrow> None | Inr k \<Rightarrow> Some k))"

text \<open>
  One turn of the loop over \<open>jobs\<close>. Every \<open>grouped[status]\<close> converts the status
  to a property name, and the first conversion throws if any does. Arrays are truthy,
  so \<open>!grouped[status]\<close> holds only when nothing is found; \<open>push\<close> is a method of
  arrays alone, and calling it on an inherited member is a TypeError.
\<close>

definition file_job :: "(rat \<Rightarrow> string) \<Rightarrow> groups \<Rightarrow> json \<Rightarrow> js_error + groups" where
  "file_job ns grouped j =
     (case field j ''status'' of
        Inl e \<Rightarrow> Inl e
      | Inr st \<Rightarrow>
          (case group_key ns st of
             Inl e \<Rightarrow> Inl e
           | Inr status \<Rightarrow>
               (let grouped1 = (if \<not> member_truthy (get_member grouped status)
                                then grouped(status \<mapsto> []) else grouped)
                in case get_member grouped1 status of
                     Own g \<Rightarrow> Inr (grouped1(status \<mapsto> g @ [j]))
                   | Inherited k \<Rightarrow> Inl TypeError
                   | Absent \<Rightarrow> Inl TypeError)))"

fun group_jobs :: "(rat \<Rightarrow> string) \<Rightarrow> groups \<Rightarrow> json list \<Rightarrow> js_error + groups" where
  "group_jobs ns grouped [] = Inr grouped"
| "group_jobs ns grouped (j # js) =
     (case file_job ns grouped j of
        Inl e \<Rightarrow> Inl e
      | Inr grouped' \<Rightarrow> group_jobs ns grouped' js)"

text \<open>A rendered column: its key, its heading and the jobs shown as cards, in order.\<close>

record column =
  col_key :: string
  col_title :: string
  col_jobs :: "json list"

text \<open>\<open>(grouped[col.key] || []).map(...)\<close>\<close>

definition render_column :: "groups \<Rightarrow> string \<times> string \<Rightarrow> js_error + column" where
  "render_column grouped col =
     (case get_member grouped (fst col) of
        Own g \<Rightarrow> Inr \<lparr>col_key = fst col, col_title = snd col, col_jobs = g\<rparr>
      | Inherited k \<Rightarrow> Inl TypeError
      | Absent \<Rightarrow> Inr \<lparr>col_key = fst col, col_title = snd col, col_jobs = []\<rparr>)"

fun render_columns :: "groups \<Rightarrow> (string \<times> string) list \<Rightarrow> js_error + column list" where
  "render_columns grouped [] = Inr []"
| "render_columns grouped (col # cols) =
     (case render_column grouped col of
        Inl e \<Rightarrow> Inl e
      | Inr c \<Rightarrow>
          (case render_columns grouped cols of
             Inl e \<Rightarrow> Inl e
           | Inr cs \<Rightarrow> Inr (c # cs)))"

definition Workboard :: "(rat \<Rightarrow> string) \<Rightarrow> json list fetched \<Rightarrow> js_error + column list" where
  "Workboard ns r =
     (case getJobs r of
        Inl e \<Rightarrow> Inl e
      | Inr jobs \<Rightarrow>
          (case group_jobs ns empty_groups jobs of
             Inl e \<Rightarrow> Inl e
           | Inr grouped \<Rightarrow> render_columns grouped columns))"

section \<open>The State Store\<close>

text \<open>
  Modelled from the spec: the State Store and its \<open>upsertHealthReport\<close> are code of
  the API server, which is not among the sources; the reporter that calls the ingest
  route and the dashboard that reads \<open>last_seen_at\<close> are. A report carries its
  \<open>report_at\<close> as a canonical instant and the blobs of the payload.
\<close>

record health_report =
  report_at :: int
  blobs :: json

text \<open>
  Modelled from the spec: a Robot of the State Store, with \<open>last_seen_at\<close> and the
  history of the reports accepted for it, in order of arrival.
\<close>

record robot_state =
  last_seen_at :: int
  history :: "health_report list"

type_synonym state_store = "string \<rightharpoonup> robot_state"

text \<open>
  Modelled from the spec: \<open>upsertHealthReport\<close> of the State Store. A Robot is
  created on the first report for an unseen id; every report is stored; a report
  older than the stored \<open>last_seen_at\<close> does not overwrite it.
\<close>

definition upsertHealthReport :: "state_store \<Rightarrow> string \<Rightarrow> health_report \<Rightarrow> state_store" where
  "upsertHealthReport store robot_id r =
     (case store robot_id of
        None \<Rightarrow> store(robot_id \<mapsto> \<lparr>last_seen_at = report_at r, history = [r]\<rparr>)
      | Some rb \<Rightarrow>
          store(robot_id \<mapsto>
            \<lparr>last_seen_at = (if report_at r < last_seen_at rb
                             then last_seen_at rb else report_at r),
             history = history rb @ [r]\<rparr>))"

text \<open>
  Modelled from the spec: a sequence of health reports for one robot, applied in
  order of arrival.
\<close>

definition upsert_all :: "state_store \<Rightarrow> string \<Rightarrow> health_report list \<Rightarrow> state_store" where
  "upsert_all store robot_id rs = foldl (\<lambda>s r. upsertHealthReport s robot_id r) store rs"

section \<open>Properties\<close>

subsection \<open>The State Store: monotonic liveness\<close>

lemma upsert_fresh:
  assumes "\<forall>rb. store rid = Some rb \<longrightarrow> last_seen_at rb \<le> report_at r"
  shows "\<exists>rb'. upsertHealthReport store rid r rid = Some rb' \<and> last_seen_at rb' = report_at r"
  using assms by (cases "store rid") (auto simp add: upsertHealthReport_def)

lemma upsert_all_Cons:
  "upsert_all store rid (r # rs) = upsert_all (upsertHealthReport store rid r) rid rs"
  by (simp add: upsert_all_def)

lemma upsert_all_increasing:
  assumes "sorted_wrt (<) (map report_at (r # rs))"
    and "\<forall>rb. store rid = Some rb \<longrightarrow> last_seen_at rb \<le> report_at r"
  shows "\<exists>rb'. upsert_all store rid (r # rs) rid = Some rb'
           \<and> last_seen_at rb' = report_at (last (r # rs))"
  using assms
proof (induction rs arbitrary: store r)
  case Nil
  then show ?case using upsert_fresh [of store rid r] by (simp add: upsert_all_def)
next
  case (Cons r2 rs)
  obtain rb1 where rb1: "upsertHealthReport store rid r rid = Some rb1"
      "last_seen_at rb1 = report_at r"
    using upsert_fresh [of store rid r] Cons.prems(2) by blast
  have lt: "report_at r < report_at r2" using Cons.prems(1) by simp
  have sorted: "sorted_wrt (<) (map report_at (r2 # rs))" using Cons.prems(1) by simp
  have pre: "\<forall>rb. upsertHealthReport store rid r rid = Some rb \<longrightarrow> last_seen_at rb \<le> report_at r2"
    using rb1 lt by simp
  from Cons.IH [of r2 "upsertHealthReport store rid r"] sorted pre show ?case
    by (simp add: upsert_all_Cons)
qed

lemma upsert_monotone:
  assumes "store rid = Some rb"
  shows "\<exists>rb'. upsertHealthReport store rid r rid = Some rb'
            \<and> last_seen_at rb \<le> last_seen_at rb'"
  using assms by (simp add: upsertHealthReport_def)

lemma upsert_older:
  assumes "store rid = Some rb" "report_at r < last_seen_at rb"
  shows "upsertHealthReport store rid r rid
           = Some \<lparr>last_seen_at = last_seen_at rb, history = history rb @ [r]\<rparr>"
  using assms by (simp add: upsertHealthReport_def)

text \<open>
  Claim C1. For every robot, \<open>last_seen_at\<close> never decreases across accepted health
  reports: an upsert leaves it at least as large as it was; after a sequence of
  reports with increasing \<open>report_at\<close> it equals the latest \<open>report_at\<close>; and a report
  older than the stored value is appended to the history and leaves \<open>last_seen_at\<close>
  as it was.
\<close>

theorem last_seen_at_monotonic:
  "(store rid = Some rb \<longrightarrow>
      (\<exists>rb'. upsertHealthReport store rid r rid = Some rb'
             \<and> last_seen_at rb \<le> last_seen_at rb'))
   \<and> (rs \<noteq> [] \<and> sorted_wrt (<) (map report_at rs)
        \<and> (\<forall>rb. store rid = Some rb \<longrightarrow> last_seen_at rb \<le> report_at (hd rs)) \<longrightarrow>
      (\<exists>rb'. upsert_all store rid rs rid = Some rb'
             \<and> last_seen_at rb' = report_at (last rs)))
   \<and> (store rid = Some rb \<and> report_at r < last_seen_at rb \<longrightarrow>
      upsertHealthReport store rid r rid
        = Some \<lparr>last_seen_at = last_seen_at rb, history = history rb @ [r]\<rparr>)"
proof (intro conjI impI)
  assume "store rid = Some rb"
  then show "\<exists>rb'. upsertHealthReport store rid r rid = Some rb'
             \<and> last_seen_at rb \<le> last_seen_at rb'"
    by (rule upsert_monotone)
next
  assume a: "rs \<noteq> [] \<and> sorted_wrt (<) (map report_at rs)
        \<and> (\<forall>rb. store rid = Some rb \<longrightarrow> last_seen_at rb \<le> report_at (hd rs))"
  then obtain r0 rs0 where rs: "rs = r0 # rs0" by (cases rs) auto
  show "\<exists>rb'. upsert_all store rid rs rid = Some rb'
             \<and> last_seen_at rb' = report_at (last rs)"
    using a upsert_all_increasing [of r0 rs0 store rid] unfolding rs by simp
next
  assume "store rid = Some rb \<and> report_at r < last_seen_at rb"
  then show "upsertHealthReport store rid r rid
        = Some \<lparr>last_seen_at = last_seen_at rb, history = history rb @ [r]\<rparr>"
    using upsert_older by blast
qed

theorem last_seen_at_monotonic_witness:
  "map_option last_seen_at
     (upsert_all Map.empty ''r1''
        [\<lparr>report_at = 10, blobs = JNull\<rparr>, \<lparr>report_at = 20, blobs = JNull\<rparr>] ''r1'') = Some 20
   \<and> map_option last_seen_at
     (upsertHealthReport
        (upsert_all Map.empty ''r1''
           [\<lparr>report_at = 10, blobs = JNull\<rparr>, \<lparr>report_at = 20, blobs = JNull\<rparr>])
        ''r1'' \<lparr>report_at = 5, blobs = JNull\<rparr> ''r1'') = Some 20"
proof -
  let ?rs = "[\<lparr>report_at = 10, blobs = JNull\<rparr>, \<lparr>report_at = 20, blobs = JNull\<rparr>]"
  let ?s = "upsert_all Map.empty ''r1'' ?rs"
  have s: "?s ''r1'' = Some \<lparr>last_seen_at = 20, history = ?rs\<rparr>"
    by (simp add: upsert_all_def upsertHealthReport_def)
  have pre: "?rs \<noteq> [] \<and> sorted_wrt (<) (map report_at ?rs)
        \<and> (\<forall>rb. (Map.empty :: state_store) ''r1'' = Some rb \<longrightarrow> last_seen_at rb \<le> report_at (hd ?rs))"
    by simp
  have older: "?s ''r1'' = Some \<lparr>last_seen_at = 20, history = ?rs\<rparr>
       \<and> report_at \<lparr>report_at = 5, blobs = JNull\<rparr> < last_seen_at \<lparr>last_seen_at = 20, history = ?rs\<rparr>"
    using s by simp
  from last_seen_at_monotonic [of Map.empty "''r1''" _ _ ?rs] pre
  have "\<exists>rb'. ?s ''r1'' = Some rb' \<and> last_seen_at rb' = report_at (last ?rs)" by blast
  moreover from last_seen_at_monotonic [of ?s "''r1''" "\<lparr>last_seen_at = 20, history = ?rs\<rparr>" "\<lparr>report_at = 5, blobs = JNull\<rparr>"] older
  have "upsertHealthReport ?s ''r1'' \<lparr>report_at = 5, blobs = JNull\<rparr> ''r1''
        = Some \<lparr>last_seen_at = 20, history = ?rs @ [\<lparr>report_at = 5, blobs = JNull\<rparr>]\<rparr>"
    by simp
  ultimately show ?thesis by auto
qed

subsection \<open>getAccessToken: the cached credential\<close>

text \<open>
  Claim C3. \<open>getAccessToken\<close>, in the serverless endpoint and in the Express server,
  keeps a process-wide cached credential. While a token is cached and the clock is
  before \<open>tokenExpireTime\<close> it returns the cached token and sends no request.
  Otherwise it sends one request; when the provider answers with code 0 it caches the
  new token with \<open>tokenExpireTime\<close> 60 seconds before the expiry the provider reports
  (the clock at the reply plus \<open>expire\<close> seconds); when the request throws or the code
  is not 0 it returns \<open>null\<close> and leaves the cache as it was.
\<close>

theorem getAccessToken_cached_credential:
  "(token_truthy (accessToken c) \<and> now < tokenExpireTime c \<longrightarrow>
      returned (getAccessToken c now reply now') = accessToken c
    \<and> requests (getAccessToken c now reply now') = 0
    \<and> cache (getAccessToken c now reply now') = c
    \<and> returned (getAccessToken_serverless c now reply now') = accessToken c
    \<and> requests (getAccessToken_serverless c now reply now') = 0
    \<and> cache (getAccessToken_serverless c now reply now') = c)
   \<and> (\<not> (token_truthy (accessToken c) \<and> now < tokenExpireTime c) \<longrightarrow>
      requests (getAccessToken c now reply now') = 1
    \<and> requests (getAccessToken_serverless c now reply now') = 1)
   \<and> (\<not> (token_truthy (accessToken c) \<and> now < tokenExpireTime c) \<and> code d = 0 \<longrightarrow>
      returned (getAccessToken c now (TokenReply d) now') = Some (tenant_access_token d)
    \<and> cache (getAccessToken c now (TokenReply d) now')
        = \<lparr>accessToken = Some (tenant_access_token d),
           tokenExpireTime = (now' + expire d * 1000) - 60 * 1000\<rparr>
    \<and> returned (getAccessToken_serverless c now (TokenReply d) now')
        = Some (tenant_access_token d)
    \<and> cache (getAccessToken_serverless c now (TokenReply d) now')
        = \<lparr>accessToken = Some (tenant_access_token d),
           tokenExpireTime = (now' + expire d * 1000) - 60 * 1000\<rparr>)
   \<and> (\<not> (token_truthy (accessToken c) \<and> now < tokenExpireTime c)
      \<and> (reply = TokenRequestThrows m \<or> (reply = TokenReply d \<and> code d \<noteq> 0)) \<longrightarrow>
      returned (getAccessToken c now reply now') = None
    \<and> cache (getAccessToken c now reply now') = c
    \<and> returned (getAccessToken_serverless c now reply now') = None
    \<and> cache (getAccessToken_serverless c now reply now') = c)"
  by (auto simp add: getAccessToken_def getAccessToken_serverless_def Let_def
        split: token_reply.splits)

theorem getAccessToken_cached_credential_witness:
  "returned (getAccessToken \<lparr>accessToken = Some ''t-1'', tokenExpireTime = 5000\<rparr> 4000
       (TokenRequestThrows ''offline'') 4001) = Some ''t-1''
   \<and> requests (getAccessToken \<lparr>accessToken = Some ''t-1'', tokenExpireTime = 5000\<rparr> 4000
       (TokenRequestThrows ''offline'') 4001) = 0
   \<and> cache (getAccessToken initial_cache 4000
       (TokenReply \<lparr>code = 0, tenant_access_token = ''t-2'', expire = 7200, msg = ''ok''\<rparr>) 4100)
     = \<lparr>accessToken = Some ''t-2'', tokenExpireTime = 7144100\<rparr>
   \<and> returned (getAccessToken_serverless \<lparr>accessToken = Some ''t-1'', tokenExpireTime = 5000\<rparr> 6000
       (TokenReply \<lparr>code = 99991663, tenant_access_token = [], expire = 0, msg = ''bad''\<rparr>) 6001)
     = None"
  using getAccessToken_cached_credential
          [where c = "\<lparr>accessToken = Some ''t-1'', tokenExpireTime = 5000\<rparr>" and now = 4000
             and reply = "TokenRequestThrows ''offline''" and now' = 4001]
        getAccessToken_cached_credential
          [where c = initial_cache and now = 4000 and now' = 4100
             and d = "\<lparr>code = 0, tenant_access_token = ''t-2'', expire = 7200, msg = ''ok''\<rparr>"]
        getAccessToken_cached_credential
          [where c = "\<lparr>accessToken = Some ''t-1'', tokenExpireTime = 5000\<rparr>" and now = 6000
             and reply = "TokenReply \<lparr>code = 99991663, tenant_access_token = [], expire = 0, msg = ''bad''\<rparr>"
             and now' = 6001
             and d = "\<lparr>code = 99991663, tenant_access_token = [], expire = 0, msg = ''bad''\<rparr>"]
  by (simp add: token_truthy_def initial_cache_def)



subsection \<open>The route /api/robots: the mock data behind every upstream failure\<close>

lemma mock_records_length: "length (mock_records u) = 2"
  by (simp add: mock_records_def getMockData_def)

lemma mock_records_ids:
  "map (\<lambda>r. field_of r zh_robot_id) (mock_records u)
     = [Inr (Some (JStr ''robot-001'')), Inr (Some (JStr ''robot-002''))]"
  by (simp add: mock_records_def getMockData_def)

lemma fetch_records_fallback:
  assumes "(\<exists>m. bitable_answer u = BitableRequestThrows m)
         \<or> (\<exists>d. bitable_answer u = BitableReply d \<and> field d ''code'' \<noteq> Inr (Some (JNum 0)))"
  shows "fetch_records u = mock_records u"
  using assms by (auto simp add: fetch_records_def split: bitable_reply.splits sum.splits)

lemma api_robots_always_200: "status_code (fst (api_robots c u)) = 200"
  by (simp add: api_robots_def split: prod.splits)

text \<open>
  Claim C8. \<open>GET /api/robots\<close> of the Express server does not fail because of the
  Bitable source. When no token can be obtained, when the Bitable request throws, or
  when Bitable answers with a code other than 0, \<open>getRecords\<close> returns the mock data:
  two records, robot-001 and robot-002, fixed but for the instant \<open>getMockData\<close>
  stamps them with. The route then answers 200 with that array, which is not empty.
\<close>

theorem api_robots_falls_back_to_mock:
  assumes "\<not> token_truthy
               (returned (getAccessToken c (clock_check u) (token_answer u) (clock_store u)))
         \<or> (\<exists>m. bitable_answer u = BitableRequestThrows m)
         \<or> (\<exists>d. bitable_answer u = BitableReply d \<and> field d ''code'' \<noteq> Inr (Some (JNum 0)))"
  shows "fst (getRecords c u)
           = map Some (getMockData (toISOString u) (clock_mock1 u) (clock_mock2 u))
       \<and> length (fst (getRecords c u)) = 2
       \<and> map (\<lambda>r. field_of r zh_robot_id) (fst (getRecords c u))
           = [Inr (Some (JStr ''robot-001'')), Inr (Some (JStr ''robot-002''))]
       \<and> fst (api_robots c u) = \<lparr>status_code = 200, body = Records (fst (getRecords c u))\<rparr>"
proof -
  have rec: "fst (getRecords c u) = mock_records u"
  proof (cases "token_truthy
               (returned (getAccessToken c (clock_check u) (token_answer u) (clock_store u)))")
    case True
    with assms have "fetch_records u = mock_records u"
      by (intro fetch_records_fallback) blast
    with True show ?thesis by (simp add: getRecords_def Let_def)
  next
    case False
    then show ?thesis by (simp add: getRecords_def Let_def)
  qed
  have api: "fst (api_robots c u) = \<lparr>status_code = 200, body = Records (fst (getRecords c u))\<rparr>"
    by (simp add: api_robots_def split: prod.splits)
  show ?thesis
    using rec api mock_records_length [of u] mock_records_ids [of u]
    by (simp add: mock_records_def)
qed

theorem api_robots_falls_back_to_mock_witness:
  "length (fst (getRecords initial_cache
      \<lparr>clock_check = 1000, token_answer = TokenRequestThrows ''ENOTFOUND'',
       clock_store = 1001, bitable_answer = BitableReply (JObj [(''code'', JNum 0)]),
       toISOString = (\<lambda>t. ''2026-01-01T00:00:00.000Z''), clock_mock1 = 1002,
       clock_mock2 = 1002\<rparr>)) = 2
   \<and> status_code (fst (api_robots initial_cache
      \<lparr>clock_check = 1000, token_answer = TokenRequestThrows ''ENOTFOUND'',
       clock_store = 1001, bitable_answer = BitableReply (JObj [(''code'', JNum 0)]),
       toISOString = (\<lambda>t. ''2026-01-01T00:00:00.000Z''), clock_mock1 = 1002,
       clock_mock2 = 1002\<rparr>)) = 200"
proof -
  let ?u = "\<lparr>clock_check = 1000, token_answer = TokenRequestThrows ''ENOTFOUND'',
       clock_store = 1001, bitable_answer = BitableReply (JObj [(''code'', JNum 0)]),
       toISOString = (\<lambda>t. ''2026-01-01T00:00:00.000Z''), clock_mock1 = 1002,
       clock_mock2 = 1002\<rparr>"
  have "\<not> token_truthy
           (returned (getAccessToken initial_cache (clock_check ?u) (token_answer ?u)
              (clock_store ?u)))"
    by (simp add: getAccessToken_def initial_cache_def token_truthy_def)
  then show ?thesis
    using api_robots_falls_back_to_mock [of initial_cache ?u]
    by (simp add: getMockData_def)
qed

subsection \<open>The reporter: delivery\<close>

lemma settle_resolves_iff:
  "settle evs = Some (Inr (c, b))
     \<longleftrightarrow> (\<exists>rest. evs = ResEnd c b # rest) \<and> 200 \<le> c \<and> c < 300"
  by (cases evs rule: settle.cases) auto

lemma postData_resolves_iff:
  "postData net url payload = Some (Inr (c, b))
     \<longleftrightarrow> url_parses net url \<and> (\<exists>rest. events net = ResEnd c b # rest) \<and> 200 \<le> c \<and> c < 300"
  by (simp add: postData_def settle_resolves_iff)

lemma postData_rejects:
  assumes "url_parses net url"
  shows "events net = ResEnd c b # rest \<Longrightarrow> \<not> (200 \<le> c \<and> c < 300)
           \<Longrightarrow> postData net url payload = Some (Inl (HttpStatus c b))"
    and "events net = ReqError m # rest
           \<Longrightarrow> postData net url payload = Some (Inl (RequestError m))"
    and "events net = ReqTimeout # rest
           \<Longrightarrow> postData net url payload = Some (Inl RequestTimeout)"
  using assms by (simp_all add: postData_def)

lemma report_delivery_failure:
  assumes "field (getOpenClawStatus status_cli) ''error'' = Inr se"
    and "postData net (HUB_URL cfg @ ''/api/ingest/health'')
           (build_payload cfg os ts (getOpenClawHealth health_cli)
              (getOpenClawStatus status_cli) se) = Some (Inl e)"
  shows "report cfg os ts health_cli status_cli net
           = \<lparr>console = [Collecting ts, ReportFailed ts e],
              post_calls = [(HUB_URL cfg @ ''/api/ingest/health'',
                             build_payload cfg os ts (getOpenClawHealth health_cli)
                               (getOpenClawStatus status_cli) se)],
              outcome = Fulfilled\<rparr>"
  using assms by (simp add: report_def Let_def)

lemma report_posts_at_most_once:
  "length (post_calls (report cfg os ts health_cli status_cli net)) \<le> 1"
  by (simp add: report_def Let_def split: sum.splits option.splits)

lemma report_rejects_before_posting:
  "outcome (report cfg os ts health_cli status_cli net) = RejectedWith e
     \<Longrightarrow> post_calls (report cfg os ts health_cli status_cli net) = []"
  by (simp add: report_def Let_def split: sum.splits option.splits)

lemma postData_first_event:
  assumes "url_parses net url"
  shows "postData net url payload
           = (case events net of
                [] \<Rightarrow> None
              | ResEnd c b # rest \<Rightarrow>
                  Some (if 200 \<le> c \<and> c < 300 then Inr (c, b) else Inl (HttpStatus c b))
              | ReqError m # rest \<Rightarrow> Some (Inl (RequestError m))
              | ReqTimeout # rest \<Rightarrow> Some (Inl RequestTimeout)
              | ResAborted # rest \<Rightarrow> None)"
  using assms by (simp add: postData_def split: list.splits req_event.splits)

text \<open>
  Claim C4 says that \<open>postData\<close> rejects for any status code outside the 2xx range,
  for any network error and for a timeout, and that \<open>report\<close> catches and logs every
  delivery failure. \<open>postData\<close> rejects through the \<open>error\<close> and \<open>timeout\<close> listeners
  of the request and, on the response, listens only for its data and its end. When
  the connection is lost after the head of the response has arrived, none of them is
  called: the promise of \<open>postData\<close> is never settled, and \<open>report\<close> stays at its
  \<open>await\<close> with nothing logged after the first line, neither success nor failure.
\<close>

theorem postData_aborted_response_pending:
  "postData \<lparr>url_parses = (\<lambda>u. True), events = [ResAborted]\<rparr> url payload = None
   \<and> report cfg os ts health_cli (CliJson (JObj [(''model'', JStr ''m'')]))
         \<lparr>url_parses = (\<lambda>u. True), events = [ResAborted]\<rparr>
       = \<lparr>console = [Collecting ts],
          post_calls = [(HUB_URL cfg @ ''/api/ingest/health'',
                         build_payload cfg os ts (getOpenClawHealth health_cli)
                           (JObj [(''model'', JStr ''m'')]) None)],
          outcome = Pending\<rparr>"
  by (simp add: postData_def report_def getOpenClawStatus_def Let_def)

subsection \<open>The reporter: the interval timer\<close>

lemma run_events_started:
  "started (run_events p evs) = started p + count_list evs Tick"
  unfolding run_events_def
proof (induction evs arbitrary: p)
  case Nil
  then show ?case by simp
next
  case (Cons ev evs)
  then show ?case by (cases ev) simp_all
qed

lemma run_events_period: "period (run_events p evs) = period p"
  unfolding run_events_def
proof (induction evs arbitrary: p)
  case Nil
  then show ?case by simp
next
  case (Cons ev evs)
  then show ?case by (cases ev) simp_all
qed

lemma run_events_ticks_overlap:
  "in_flight (run_events p (replicate k Tick)) = in_flight p + k"
  unfolding run_events_def
  by (induction k arbitrary: p) simp_all

lemma run_events_next_firing:
  "next_firing (run_events p evs) = next_firing p + int (count_list evs Tick) * period p"
  unfolding run_events_def
proof (induction evs arbitrary: p)
  case Nil
  then show ?case by simp
next
  case (Cons ev evs)
  then show ?case by (cases ev) (simp_all add: algebra_simps)
qed

lemma CONFIG_INTERVAL:
  "INTERVAL (CONFIG env os)
     = (case REPORT_INTERVAL env of None \<Rightarrow> 30000 | Some n \<Rightarrow> if n = 0 then 30000 else n)"
  by (simp add: CONFIG_def split: option.splits)

lemma timer_delay_CONFIG:
  "timer_delay (INTERVAL (CONFIG env os))
     = (case REPORT_INTERVAL env of
          None \<Rightarrow> 30000
        | Some n \<Rightarrow> if n = 0 then 30000 else if 1 \<le> n \<and> n \<le> 2147483647 then n else 1)"
  by (simp add: CONFIG_INTERVAL timer_delay_def TIMEOUT_MAX_def split: option.splits)

text \<open>
  Claim C7 says that a firing of the timer is skipped while an invocation of
  \<open>report\<close> is still running. Right after start-up the first invocation is in flight,
  and a firing of the timer starts a second one beside it.
\<close>

theorem interval_timer_skips_counterexample:
  "\<not> (0 < in_flight (startup \<lparr>HUB_URL = ''http://localhost:3000'', ROBOT_ID = ''r1'',
                               INTERVAL = 30000\<rparr>)
       \<longrightarrow> started (on_event (startup \<lparr>HUB_URL = ''http://localhost:3000'', ROBOT_ID = ''r1'',
                                       INTERVAL = 30000\<rparr>) Tick)
           = started (startup \<lparr>HUB_URL = ''http://localhost:3000'', ROBOT_ID = ''r1'',
                               INTERVAL = 30000\<rparr>))"
  by (simp add: startup_def)

text \<open>
  Claim C7, as the code has it. \<open>report\<close> runs once at start-up; from then on every
  firing of the interval timer starts a further invocation, whether or not earlier
  ones are still in flight, so invocations can overlap and no firing is skipped. The
  timer has a fixed period, each firing being due one period after the one before.
  The period is what \<open>parseInt\<close> reads from \<open>REPORT_INTERVAL\<close> when that lies between
  1 and 2147483647 ms, 30000 ms when it is NaN or 0, and 1 ms for every other value,
  which \<open>setInterval\<close> replaces.
\<close>

theorem interval_timer_starts_every_tick:
  "started (startup cfg) = 1
   \<and> in_flight (startup cfg) = 1
   \<and> started (run_events (startup cfg) evs) = 1 + count_list evs Tick
   \<and> in_flight (run_events (startup cfg) (replicate k Tick)) = 1 + k
   \<and> period (run_events (startup cfg) evs) = timer_delay (INTERVAL cfg)
   \<and> next_firing (run_events (startup cfg) evs)
       = (1 + int (count_list evs Tick)) * timer_delay (INTERVAL cfg)
   \<and> (REPORT_INTERVAL env = None \<or> REPORT_INTERVAL env = Some 0
        \<longrightarrow> timer_delay (INTERVAL (CONFIG env os)) = 30000)
   \<and> (REPORT_INTERVAL env = Some n \<and> 1 \<le> n \<and> n \<le> 2147483647
        \<longrightarrow> timer_delay (INTERVAL (CONFIG env os)) = n)
   \<and> (REPORT_INTERVAL env = Some n \<and> (n < 0 \<or> 2147483647 < n)
        \<longrightarrow> timer_delay (INTERVAL (CONFIG env os)) = 1)"
proof (intro conjI impI)
  show "next_firing (run_events (startup cfg) evs)
       = (1 + int (count_list evs Tick)) * timer_delay (INTERVAL cfg)"
    by (simp add: run_events_next_firing startup_def algebra_simps)
qed (auto simp add: run_events_started run_events_period run_events_ticks_overlap
       timer_delay_CONFIG startup_def)

theorem interval_timer_starts_every_tick_witness:
  "started (run_events
      (startup (CONFIG \<lparr>FLEET_HUB_URL = None, env_ROBOT_ID = None, REPORT_INTERVAL = None\<rparr>
                 \<lparr>hostname = ''r1'', platform = ''linux'', uptime = JNum 1,
                  loadavg = JArr [], totalmem = JNum 8, freemem = JNum 4\<rparr>))
      [Tick, Tick, Settled, Tick]) = 4
   \<and> in_flight (run_events
      (startup (CONFIG \<lparr>FLEET_HUB_URL = None, env_ROBOT_ID = None, REPORT_INTERVAL = None\<rparr>
                 \<lparr>hostname = ''r1'', platform = ''linux'', uptime = JNum 1,
                  loadavg = JArr [], totalmem = JNum 8, freemem = JNum 4\<rparr>))
      (replicate 2 Tick)) = 3
   \<and> next_firing (run_events
      (startup (CONFIG \<lparr>FLEET_HUB_URL = None, env_ROBOT_ID = None, REPORT_INTERVAL = None\<rparr>
                 \<lparr>hostname = ''r1'', platform = ''linux'', uptime = JNum 1,
                  loadavg = JArr [], totalmem = JNum 8, freemem = JNum 4\<rparr>))
      [Tick, Tick, Settled, Tick]) = 120000
   \<and> timer_delay (INTERVAL
        (CONFIG \<lparr>FLEET_HUB_URL = None, env_ROBOT_ID = None, REPORT_INTERVAL = Some 5000\<rparr>
           \<lparr>hostname = ''r1'', platform = ''linux'', uptime = JNum 1,
            loadavg = JArr [], totalmem = JNum 8, freemem = JNum 4\<rparr>)) = 5000
   \<and> timer_delay (INTERVAL
        (CONFIG \<lparr>FLEET_HUB_URL = None, env_ROBOT_ID = None, REPORT_INTERVAL = Some (- 5)\<rparr>
           \<lparr>hostname = ''r1'', platform = ''linux'', uptime = JNum 1,
            loadavg = JArr [], totalmem = JNum 8, freemem = JNum 4\<rparr>)) = 1"
proof -
  let ?os = "\<lparr>hostname = ''r1'', platform = ''linux'', uptime = JNum 1,
                  loadavg = JArr [], totalmem = JNum 8, freemem = JNum 4\<rparr>"
  let ?env = "\<lparr>FLEET_HUB_URL = None, env_ROBOT_ID = None, REPORT_INTERVAL = None\<rparr>"
  have unset: "timer_delay (INTERVAL (CONFIG ?env ?os)) = 30000"
    using interval_timer_starts_every_tick [where env = ?env and os = ?os] by simp
  have run: "started (run_events (startup (CONFIG ?env ?os)) [Tick, Tick, Settled, Tick]) = 4
     \<and> in_flight (run_events (startup (CONFIG ?env ?os)) (replicate 2 Tick)) = 3
     \<and> next_firing (run_events (startup (CONFIG ?env ?os)) [Tick, Tick, Settled, Tick])
         = 120000"
    using interval_timer_starts_every_tick
      [where cfg = "CONFIG ?env ?os" and evs = "[Tick, Tick, Settled, Tick]" and k = 2]
      unset
    by simp
  have set5000: "timer_delay (INTERVAL
        (CONFIG \<lparr>FLEET_HUB_URL = None, env_ROBOT_ID = None, REPORT_INTERVAL = Some 5000\<rparr>
           ?os)) = 5000"
    using interval_timer_starts_every_tick
      [where env = "\<lparr>FLEET_HUB_URL = None, env_ROBOT_ID = None, REPORT_INTERVAL = Some 5000\<rparr>"
         and os = ?os and n = 5000]
    by simp
  have negative: "timer_delay (INTERVAL
        (CONFIG \<lparr>FLEET_HUB_URL = None, env_ROBOT_ID = None, REPORT_INTERVAL = Some (- 5)\<rparr>
           ?os)) = 1"
    using interval_timer_starts_every_tick
      [where env = "\<lparr>FLEET_HUB_URL = None, env_ROBOT_ID = None, REPORT_INTERVAL = Some (- 5)\<rparr>"
         and os = ?os and n = "- 5"]
    by simp
  show ?thesis using run set5000 negative by simp
qed

subsection \<open>mapStatus\<close>

lemma mapStatus_falsy:
  "\<not> truthy status \<Longrightarrow> mapStatus ns status = Inr (Value (JStr zh_offline))"
  by (auto simp add: mapStatus_def split: option.splits)

lemma mapStatus_table:
  "mapStatus ns (Some (JStr ''Online'')) = Inr (Value (JStr zh_online))"
  "mapStatus ns (Some (JStr ''online'')) = Inr (Value (JStr zh_online))"
  "mapStatus ns (Some (JStr ''Offline'')) = Inr (Value (JStr zh_offline))"
  "mapStatus ns (Some (JStr ''offline'')) = Inr (Value (JStr zh_offline))"
  "mapStatus ns (Some (JStr ''running'')) = Inr (Value (JStr zh_running))"
  "mapStatus ns (Some (JStr zh_running)) = Inr (Value (JStr zh_running))"
  by (simp_all add: mapStatus_def get_member_def statusMap_def zh_running_def
        zh_online_def zh_offline_def)

lemma mapStatus_other_string:
  assumes "s \<noteq> []" "s \<notin> fst ` set statusMap" "s \<notin> set Object_prototype"
  shows "mapStatus ns (Some (JStr s)) = Inr (Value (JStr s))"
proof -
  have "map_of statusMap s = None"
    using assms(2) by (simp add: map_of_eq_None_iff)
  then show ?thesis
    using assms by (simp add: mapStatus_def get_member_def)
qed

lemma statusMap_values:
  assumes "map_of statusMap k = Some v"
  shows "v \<noteq> JNull"
proof -
  have "(k, v) \<in> set statusMap"
    using assms by (rule map_of_SomeD)
  then show ?thesis
    by (auto simp add: statusMap_def)
qed

lemma mapStatus_never_null: "mapStatus ns st \<noteq> Inr (Value JNull)"
proof (cases st)
  case None
  then show ?thesis by (simp add: mapStatus_def)
next
  case (Some s)
  show ?thesis
  proof (cases "truthy (Some s)")
    case False
    then show ?thesis using Some by (simp add: mapStatus_def)
  next
    case True
    then have s: "s \<noteq> JNull" by auto
    show ?thesis
    proof (cases "to_string ns s")
      case (Inl e)
      then show ?thesis using Some True by (simp add: mapStatus_def)
    next
      case (Inr k)
      show ?thesis
      proof (cases "map_of statusMap k")
        case None
        then show ?thesis
          using Some True Inr s by (simp add: mapStatus_def get_member_def)
      next
        case (Some v)
        then have "v \<noteq> JNull" by (rule statusMap_values)
        then show ?thesis
          using \<open>st = Some s\<close> True Inr s Some by (simp add: mapStatus_def get_member_def)
      qed
    qed
  qed
qed

lemma mapStatus_own_toString:
  "mapStatus ns (Some (JObj [(''toString'', JStr ''x'')])) = Inl TypeError"
  by (simp add: mapStatus_def)

text \<open>
  Claim C10 says that every truthy input outside the six keys of \<open>statusMap\<close> is
  returned unchanged. \<open>statusMap\<close> is a plain object, so the status
  \<open>constructor\<close> finds the member that every object inherits from
  \<open>Object.prototype\<close>: \<open>statusMap[status]\<close> is that function, it is truthy, and
  \<open>mapStatus\<close> returns it in place of the string it was given.
\<close>

theorem mapStatus_inherited_name:
  "mapStatus ns (Some (JStr ''constructor'')) = Inr (Builtin ''constructor'')
   \<and> mapStatus ns (Some (JStr ''constructor'')) \<noteq> Inr (Value (JStr ''constructor''))"
  by (simp add: mapStatus_def get_member_def statusMap_def Object_prototype_def
        zh_running_def)

subsection \<open>The reporter: the payload\<close>









subsection \<open>The workboard\<close>

lemma file_job_ok:
  assumes "job_key ns j = Some k" "k \<notin> set Object_prototype"
  shows "file_job ns g j = Inr (g(k \<mapsto> (case g k of None \<Rightarrow> [] | Some l \<Rightarrow> l) @ [j]))"
  using assms
  by (cases "g k")
     (auto simp add: file_job_def job_key_def get_member_def member_truthy_def Let_def
        split: sum.splits)

lemma group_jobs_ok:
  assumes "\<forall>j\<in>set js. \<exists>k. job_key ns j = Some k \<and> k \<notin> set Object_prototype"
  shows "\<exists>g'. group_jobs ns g js = Inr g'
           \<and> (\<forall>k. g' k = (if filter (\<lambda>j. job_key ns j = Some k) js = [] then g k
                          else Some ((case g k of None \<Rightarrow> [] | Some l \<Rightarrow> l)
                                     @ filter (\<lambda>j. job_key ns j = Some k) js)))"
  using assms
proof (induction js arbitrary: g)
  case Nil
  then show ?case by simp
next
  case (Cons j js)
  then obtain k where k: "job_key ns j = Some k" "k \<notin> set Object_prototype"
    by auto
  let ?g1 = "g(k \<mapsto> (case g k of None \<Rightarrow> [] | Some l \<Rightarrow> l) @ [j])"
  have step: "file_job ns g j = Inr ?g1"
    using k by (rule file_job_ok)
  have rest: "\<forall>j\<in>set js. \<exists>k. job_key ns j = Some k \<and> k \<notin> set Object_prototype"
    using Cons.prems by simp
  from Cons.IH [OF rest, of ?g1] obtain g' where
    g': "group_jobs ns ?g1 js = Inr g'"
    and char: "\<forall>k'. g' k' = (if filter (\<lambda>j. job_key ns j = Some k') js = [] then ?g1 k'
                          else Some ((case ?g1 k' of None \<Rightarrow> [] | Some l \<Rightarrow> l)
                                     @ filter (\<lambda>j. job_key ns j = Some k') js))"
    by blast
  have "group_jobs ns g (j # js) = Inr g'"
    using step g' by simp
  moreover have "\<forall>k'. g' k' = (if filter (\<lambda>j. job_key ns j = Some k') (j # js) = [] then g k'
                          else Some ((case g k' of None \<Rightarrow> [] | Some l \<Rightarrow> l)
                                     @ filter (\<lambda>j. job_key ns j = Some k') (j # js)))"
    using char k(1) by (auto split: option.splits)
  ultimately show ?case by blast
qed

lemma empty_groups_own:
  "empty_groups k = (if k \<in> fst ` set columns then Some [] else None)"
  by (simp add: empty_groups_def columns_def)

lemma render_columns_own:
  assumes "\<forall>col\<in>set cols. \<exists>l. g (fst col) = Some l"
  shows "render_columns g cols
           = Inr (map (\<lambda>col. \<lparr>col_key = fst col, col_title = snd col,
                              col_jobs = (case g (fst col) of None \<Rightarrow> [] | Some l \<Rightarrow> l)\<rparr>) cols)"
  using assms
proof (induction cols)
  case Nil
  then show ?case by simp
next
  case (Cons col cols)
  then obtain l where "g (fst col) = Some l" by auto
  then have "render_column g col = Inr \<lparr>col_key = fst col, col_title = snd col, col_jobs = l\<rparr>"
    by (simp add: render_column_def get_member_def)
  then show ?case using Cons \<open>g (fst col) = Some l\<close> by simp
qed

lemma Workboard_columns:
  assumes "\<forall>j\<in>set jobs. \<exists>k. job_key ns j = Some k \<and> k \<notin> set Object_prototype"
    and "getJobs r = Inr jobs"
  shows "Workboard ns r
           = Inr (map (\<lambda>col. \<lparr>col_key = fst col, col_title = snd col,
                              col_jobs = filter (\<lambda>j. job_key ns j = Some (fst col)) jobs\<rparr>)
                    columns)"
proof -
  from group_jobs_ok [OF assms(1), of empty_groups] obtain g' where
    g': "group_jobs ns empty_groups jobs = Inr g'"
    and char: "\<forall>k. g' k = (if filter (\<lambda>j. job_key ns j = Some k) jobs = [] then empty_groups k
                          else Some ((case empty_groups k of None \<Rightarrow> [] | Some l \<Rightarrow> l)
                                     @ filter (\<lambda>j. job_key ns j = Some k) jobs))"
    by blast
  have own: "\<forall>col\<in>set columns. g' (fst col) = Some (filter (\<lambda>j. job_key ns j = Some (fst col)) jobs)"
    using char by (auto simp add: empty_groups_own)
  then have "\<forall>col\<in>set columns. \<exists>l. g' (fst col) = Some l" by blast
  from render_columns_own [OF this]
  have "render_columns g' columns
           = Inr (map (\<lambda>col. \<lparr>col_key = fst col, col_title = snd col,
                              col_jobs = (case g' (fst col) of None \<Rightarrow> [] | Some l \<Rightarrow> l)\<rparr>) columns)" .
  also have "map (\<lambda>col. \<lparr>col_key = fst col, col_title = snd col,
                              col_jobs = (case g' (fst col) of None \<Rightarrow> [] | Some l \<Rightarrow> l)\<rparr>) columns
      = map (\<lambda>col. \<lparr>col_key = fst col, col_title = snd col,
                              col_jobs = filter (\<lambda>j. job_key ns j = Some (fst col)) jobs\<rparr>) columns"
    using own by (intro map_cong) auto
  finally show ?thesis
    using g' assms(2) by (simp add: Workboard_def)
qed

lemma job_key_string:
  "field j ''status'' = Inr (Some (JStr k)) \<Longrightarrow> k \<noteq> [] \<Longrightarrow> job_key ns j = Some k"
  by (simp add: job_key_def group_key_def or_else_def)

lemma job_key_falsy:
  "field j ''status'' = Inr st \<Longrightarrow> \<not> truthy st \<Longrightarrow> job_key ns j = Some ''BACKLOG''"
  by (auto simp add: job_key_def group_key_def or_else_def split: option.splits)

text \<open>
  On every list of jobs that the page renders (no job is \<open>null\<close>, every status can be
  converted to a property name, and none names a member of \<open>Object.prototype\<close>) the
  six columns BACKLOG, ASSIGNED, RUNNING, BLOCKED, DONE and FAILED are rendered in
  that order and a column shows, in order, the jobs filed under its key, so that a job
  whose status is one of the six values appears in the column equal to its status and
  in no other.
\<close>

lemma Workboard_groups_by_status:
  assumes "getJobs r = Inr jobs"
    and "\<forall>j\<in>set jobs. \<exists>k. job_key ns j = Some k \<and> k \<notin> set Object_prototype"
  shows "\<exists>cols. Workboard ns r = Inr cols
           \<and> map col_key cols
               = [''BACKLOG'', ''ASSIGNED'', ''RUNNING'', ''BLOCKED'', ''DONE'', ''FAILED'']
           \<and> (\<forall>c\<in>set cols. col_jobs c = filter (\<lambda>j. job_key ns j = Some (col_key c)) jobs)
           \<and> (\<forall>j\<in>set jobs. \<forall>k\<in>set (map fst columns).
                  field j ''status'' = Inr (Some (JStr k)) \<longrightarrow>
                  (\<forall>c\<in>set cols. (j \<in> set (col_jobs c)) = (col_key c = k)))"
proof -
  let ?cols = "map (\<lambda>col. \<lparr>col_key = fst col, col_title = snd col,
                              col_jobs = filter (\<lambda>j. job_key ns j = Some (fst col)) jobs\<rparr>)
                 columns"
  have w: "Workboard ns r = Inr ?cols"
    using assms(2,1) by (rule Workboard_columns)
  have keys: "map col_key ?cols
               = [''BACKLOG'', ''ASSIGNED'', ''RUNNING'', ''BLOCKED'', ''DONE'', ''FAILED'']"
    by (simp add: columns_def)
  have filt: "\<forall>c\<in>set ?cols. col_jobs c = filter (\<lambda>j. job_key ns j = Some (col_key c)) jobs"
    by auto
  have once: "\<forall>j\<in>set jobs. \<forall>k\<in>set (map fst columns).
                  field j ''status'' = Inr (Some (JStr k)) \<longrightarrow>
                  (\<forall>c\<in>set ?cols. (j \<in> set (col_jobs c)) = (col_key c = k))"
  proof (intro ballI impI)
    fix j k c
    assume j: "j \<in> set jobs" and k: "k \<in> set (map fst columns)"
      and st: "field j ''status'' = Inr (Some (JStr k))" and c: "c \<in> set ?cols"
    have "k \<noteq> []" using k by (auto simp add: columns_def)
    then have "job_key ns j = Some k" using st by (simp add: job_key_string)
    moreover have "col_jobs c = filter (\<lambda>j. job_key ns j = Some (col_key c)) jobs"
      using filt c by blast
    ultimately show "(j \<in> set (col_jobs c)) = (col_key c = k)"
      using j by auto
  qed
  from w keys filt once show ?thesis
    by (intro exI [of _ ?cols] conjI)
qed


lemma Workboard_other_status_hidden:
  assumes "\<forall>j\<in>set jobs. \<exists>k. job_key ns j = Some k \<and> k \<notin> set Object_prototype"
    and "getJobs r = Inr jobs" "Workboard ns r = Inr cols"
    and "job_key ns j = Some k" "k \<notin> fst ` set columns"
  shows "\<forall>c\<in>set cols. j \<notin> set (col_jobs c)"
  using assms(3-) unfolding Workboard_columns [OF assms(1,2)] by force

lemma Workboard_falsy_status_backlog:
  assumes "\<forall>j\<in>set jobs. \<exists>k. job_key ns j = Some k \<and> k \<notin> set Object_prototype"
    and "getJobs r = Inr jobs" "Workboard ns r = Inr cols"
    and "j \<in> set jobs" "field j ''status'' = Inr st" "\<not> truthy st"
  shows "\<forall>c\<in>set cols. (j \<in> set (col_jobs c)) = (col_key c = ''BACKLOG'')"
  using assms(3,4) job_key_falsy [OF assms(5,6), of ns]
  unfolding Workboard_columns [OF assms(1,2)] by auto

text \<open>
  Claim C6 says that every job whose status is one of the six values appears in the
  one column equal to its status. The loop that files the jobs runs to its end before
  any column is rendered, and it throws on a job whose status names a member that
  \<open>grouped\<close>, a plain object, inherits from \<open>Object.prototype\<close>. With such a job in
  the list the page renders no column, and the job whose status is DONE appears in
  none.
\<close>

theorem Workboard_listed_status_lost:
  "field (JObj [(''job_id'', JStr ''job-1''), (''status'', JStr ''DONE'')]) ''status''
     = Inr (Some (JStr ''DONE''))
   \<and> ''DONE'' \<in> fst ` set columns
   \<and> getJobs (Response True
         (Some [JObj [(''job_id'', JStr ''job-1''), (''status'', JStr ''DONE'')],
                JObj [(''job_id'', JStr ''job-2''), (''status'', JStr ''constructor'')]]))
       = Inr [JObj [(''job_id'', JStr ''job-1''), (''status'', JStr ''DONE'')],
              JObj [(''job_id'', JStr ''job-2''), (''status'', JStr ''constructor'')]]
   \<and> (\<forall>cols. Workboard ns (Response True
         (Some [JObj [(''job_id'', JStr ''job-1''), (''status'', JStr ''DONE'')],
                JObj [(''job_id'', JStr ''job-2''), (''status'', JStr ''constructor'')]]))
       \<noteq> Inr cols)"
  by (simp add: Workboard_def getJobs_def file_job_def group_key_def or_else_def
        get_member_def member_truthy_def empty_groups_def columns_def Object_prototype_def
        Let_def)

text \<open>
  Claim C9 says that a job whose status is a non-empty value outside the six column
  keys goes into a group created for it, which no column renders. For the status
  \<open>constructor\<close> the test \<open>!grouped[status]\<close> finds the member inherited from
  \<open>Object.prototype\<close>, no group is created, and \<open>grouped[status].push(j)\<close> throws a
  TypeError: the page renders no column at all, not even for the jobs in DONE.
\<close>

theorem Workboard_inherited_status:
  "Workboard ns
     (Response True (Some [JObj [(''job_id'', JStr ''job-1''), (''status'', JStr ''DONE'')],
                           JObj [(''job_id'', JStr ''job-2''), (''status'', JStr ''constructor'')]]))
     = Inl TypeError"
  by (simp add: Workboard_def getJobs_def file_job_def group_key_def or_else_def
        get_member_def member_truthy_def empty_groups_def columns_def Object_prototype_def
        Let_def)

subsection \<open>The robot detail page\<close>

lemma getRobot_cases:
  "getRobot r = Inr d \<longleftrightarrow>
     (\<exists>p. r = Response False p \<and> d = JNull) \<or> r = Response True (Some d)"
  by (auto simp add: getRobot_def split: fetched.splits option.splits)

lemma field_truthy: "truthy (Some d) \<Longrightarrow> \<exists>v. field d name = Inr v"
  by (cases d) auto










end
